theory Spec2Isabelle
  imports Complex_Main
begin

section \<open>The retrying completion client (utils/githubModels.py)\<close>

text \<open>
  \<^verbatim>\<open>GitHubModelsClient.generate\<close> posts a chat-completion payload and loops over
  \<^verbatim>\<open>range(self.maxRetries)\<close>. The model makes the outside world explicit: the backend
  is a function of the number of posts made so far, and the world records how many posts
  were made and every duration passed to \<^verbatim>\<open>time.sleep\<close>, in order. Logging is left out:
  it changes no value the functions return.
\<close>

subsection \<open>Data\<close>

text \<open>A parsed JSON document, as \<^verbatim>\<open>response.json()\<close> returns it. The pairs of
  \<open>JObj\<close> are the items of the Python dict; lookup takes the first pair with the key.\<close>

datatype json =
    JNull
  | JBool bool
  | JNum real
  | JStr string
  | JArr "json list"
  | JObj "(string \<times> json) list"

text \<open>The Python exceptions \<^verbatim>\<open>generate\<close> can meet inside its \<^verbatim>\<open>try\<close> block that are not
  \<^verbatim>\<open>requests.exceptions.HTTPError\<close>: a transport failure of \<^verbatim>\<open>requests.post\<close>, a body that
  is not JSON, and the three errors of subscripting.\<close>

datatype pyexn = RequestException | JSONDecodeError | KeyError | IndexError | TypeError

text \<open>What leaves \<^verbatim>\<open>generate\<close> as an exception, one constructor for each \<^verbatim>\<open>raise\<close>:
  \<^item> \<open>RateLimitExceeded n\<close>: line 87, \<^verbatim>\<open>RuntimeError(f"API rate limit exceeded after {n} retries")\<close>;
  \<^item> \<open>InvalidToken\<close>: line 78, \<^verbatim>\<open>RuntimeError("Invalid GitHub token.")\<close>;
  \<^item> \<open>AccessRequired\<close>: line 80, \<^verbatim>\<open>RuntimeError("GitHub Copilot access required.")\<close>;
  \<^item> \<open>ApiError s\<close>: line 82, \<^verbatim>\<open>RuntimeError(f"API error: {e}")\<close> for the HTTP status \<open>s\<close>;
  \<^item> \<open>Reraised e\<close>: line 85, the bare \<^verbatim>\<open>raise\<close> of the handler for every other exception.\<close>

datatype error =
    RateLimitExceeded nat
  | InvalidToken
  | AccessRequired
  | ApiError int
  | Reraised pyexn

text \<open>The body of a response: \<^verbatim>\<open>response.json()\<close> either parses it or raises.\<close>

datatype body = NotJson | Json json

text \<open>One call of \<^verbatim>\<open>requests.post\<close>: it raises a transport exception (connection error,
  timeout), or it returns a response with a status code and a body.\<close>

datatype http_outcome = PostRaises | Response int body

record client =
  githubToken :: string
  model :: string
  maxRetries :: nat
  baseDelay :: int

record request =
  prompt :: string
  systemPrompt :: "string option"
  maxTokens :: int
  temperature :: real

record payload =
  p_model :: string
  p_messages :: "(string \<times> string) list"
  p_max_tokens :: int
  p_temperature :: real

record world =
  posts :: nat
  news_calls :: nat
  slept :: "int list"

type_synonym backend = "nat \<Rightarrow> (string \<times> string) list \<Rightarrow> payload \<Rightarrow> http_outcome"

subsection \<open>Operations\<close>

definition init_client :: "string \<Rightarrow> string \<Rightarrow> client" where
  "init_client token mdl =
     \<lparr>githubToken = token, model = mdl, maxRetries = 3, baseDelay = 5\<rparr>"

definition headers :: "client \<Rightarrow> (string \<times> string) list" where
  "headers c =
     [(''Authorization'', ''Bearer '' @ githubToken c),
      (''Content-Type'', ''application/json'')]"

definition build_messages :: "request \<Rightarrow> (string \<times> string) list" where
  "build_messages r =
     (case systemPrompt r of
        None \<Rightarrow> []
      | Some s \<Rightarrow> (if s \<noteq> [] then [(''system'', s)] else []))
     @ [(''user'', prompt r)]"

definition build_payload :: "client \<Rightarrow> request \<Rightarrow> payload" where
  "build_payload c r =
     \<lparr>p_model = model c, p_messages = build_messages r,
      p_max_tokens = maxTokens r, p_temperature = temperature r\<rparr>"

text \<open>\<^verbatim>\<open>response.raise_for_status()\<close> raises HTTPError for a status from 400 to 599.\<close>

definition raises_for_status :: "int \<Rightarrow> bool" where
  "raises_for_status s \<longleftrightarrow> 400 \<le> s \<and> s < 600"

text \<open>Python's \<^verbatim>\<open>d[k]\<close> with a string key: a dict without the key raises KeyError, a
  list or a string raises TypeError (their indices must be integers), and so does every
  value that cannot be subscripted.\<close>

fun subscript_key :: "json \<Rightarrow> string \<Rightarrow> pyexn + json" where
  "subscript_key (JObj kvs) k =
     (case map_of kvs k of None \<Rightarrow> Inl KeyError | Some v \<Rightarrow> Inr v)"
| "subscript_key _ k = Inl TypeError"

text \<open>Python's \<^verbatim>\<open>d[0]\<close>: the first element of a list or the first character of a string,
  IndexError when it is empty; a dict from JSON has string keys only, so \<^verbatim>\<open>0\<close> is a
  KeyError; every other value raises TypeError.\<close>

fun subscript_zero :: "json \<Rightarrow> pyexn + json" where
  "subscript_zero (JArr []) = Inl IndexError"
| "subscript_zero (JArr (x # xs)) = Inr x"
| "subscript_zero (JStr []) = Inl IndexError"
| "subscript_zero (JStr (ch # cs)) = Inr (JStr [ch])"
| "subscript_zero (JObj kvs) = Inl KeyError"
| "subscript_zero _ = Inl TypeError"

text \<open>Lines 68 and 69: \<^verbatim>\<open>data = response.json()\<close>, then
  \<^verbatim>\<open>data["choices"][0]["message"]["content"]\<close>.\<close>

definition extract_content :: "body \<Rightarrow> pyexn + json" where
  "extract_content b =
     (case b of
        NotJson \<Rightarrow> Inl JSONDecodeError
      | Json data \<Rightarrow>
          (case subscript_key data ''choices'' of
             Inl e \<Rightarrow> Inl e
           | Inr choices \<Rightarrow>
               (case subscript_zero choices of
                  Inl e \<Rightarrow> Inl e
                | Inr choice \<Rightarrow>
                    (case subscript_key choice ''message'' of
                       Inl e \<Rightarrow> Inl e
                     | Inr message \<Rightarrow> subscript_key message ''content''))))"

text \<open>The loop \<^verbatim>\<open>for attempt in range(self.maxRetries)\<close>, over the attempts still to
  run. Leaving the loop without a return is the \<^verbatim>\<open>raise\<close> of line 87.\<close>

fun generate_loop ::
  "client \<Rightarrow> backend \<Rightarrow> payload \<Rightarrow> nat list \<Rightarrow> world \<Rightarrow> (error + json) \<times> world" where
  "generate_loop c B p [] w = (Inl (RateLimitExceeded (maxRetries c)), w)"
| "generate_loop c B p (attempt # rest) w =
     (let w1 = w\<lparr>posts := posts w + 1\<rparr> in
      case B (posts w) (headers c) p of
        PostRaises \<Rightarrow> (Inl (Reraised RequestException), w1)
      | Response status b \<Rightarrow>
          if raises_for_status status then
            (if status = 429 then
               let waitTime = baseDelay c * (int attempt + 1) * 2 in
               generate_loop c B p rest (w1\<lparr>slept := slept w1 @ [waitTime]\<rparr>)
             else if status = 401 then (Inl InvalidToken, w1)
             else if status = 403 then (Inl AccessRequired, w1)
             else (Inl (ApiError status), w1))
          else
            (case extract_content b of
               Inl e \<Rightarrow> (Inl (Reraised e), w1)
             | Inr text \<Rightarrow> (Inr text, w1)))"

definition generate :: "client \<Rightarrow> backend \<Rightarrow> request \<Rightarrow> world \<Rightarrow> (error + json) \<times> world" where
  "generate c B r w = generate_loop c B (build_payload c r) [0..<maxRetries c] w"

text \<open>The backoff durations of the attempts \<open>as\<close>, as line 73 computes them.\<close>

definition backoffs :: "client \<Rightarrow> nat list \<Rightarrow> int list" where
  "backoffs c as = map (\<lambda>attempt. baseDelay c * (int attempt + 1) * 2) as"

text \<open>The backend answers HTTP 429 to the posts numbered \<open>n\<close> to \<open>n + k - 1\<close>.\<close>

definition rate_limited :: "backend \<Rightarrow> client \<Rightarrow> payload \<Rightarrow> nat \<Rightarrow> nat \<Rightarrow> bool" where
  "rate_limited B c p n k \<longleftrightarrow>
     (\<forall>i < k. \<exists>b. B (n + i) (headers c) p = Response 429 b)"

text \<open>The response structure the client expects, in the words of the interface:
  an object whose \<^verbatim>\<open>choices\<close> is a non-empty array, whose first element is an object
  with a \<^verbatim>\<open>message\<close> object that has a \<^verbatim>\<open>content\<close> member.\<close>

definition has_content :: "body \<Rightarrow> bool" where
  "has_content b \<longleftrightarrow>
     (\<exists>top first rest choice msg text.
        b = Json (JObj top) \<and> map_of top ''choices'' = Some (JArr (first # rest)) \<and>
        first = JObj choice \<and> map_of choice ''message'' = Some (JObj msg) \<and>
        map_of msg ''content'' = Some text)"

section \<open>The topic search aggregator (utils/webSearch.py)\<close>

text \<open>
  \<^verbatim>\<open>WebSearchClient.search_news\<close> asks the DuckDuckGo client for news and turns each
  result into an article dict; \<^verbatim>\<open>search_multiple_topics\<close> runs it for every keyword of
  every category and keeps, per category, the first article of each link. Dicts are maps
  from keys to values. The provider is a function of the number of calls made to it so far
  and of the arguments of the call: it returns a list of result dicts or raises.
\<close>

subsection \<open>Data\<close>

text \<open>The values of a result dict: the provider documents strings; \<open>PyNone\<close> is
  kept, since \<^verbatim>\<open>dict.get\<close> passes a stored \<^verbatim>\<open>None\<close> through.\<close>

datatype pyval = PyNone | PyStr string

type_synonym pydict = "string \<rightharpoonup> pyval"

text \<open>\<^verbatim>\<open>self.ddgs.news(...)\<close> consumed by \<^verbatim>\<open>list(...)\<close>: an exception (a subclass of
  \<^verbatim>\<open>Exception\<close>, which is what the handler of line 66 catches) or the results.\<close>

datatype news_outcome = NewsRaises | NewsReturns "pydict list"

record news_args =
  arg_keywords :: string
  arg_region :: string
  arg_safesearch :: string
  arg_timelimit :: string
  arg_max_results :: int

type_synonym provider = "nat \<Rightarrow> news_args \<Rightarrow> news_outcome"

subsection \<open>Operations\<close>

text \<open>\<^verbatim>\<open>d.get(k, default)\<close>.\<close>

definition dict_get :: "pydict \<Rightarrow> string \<Rightarrow> pyval \<Rightarrow> pyval" where
  "dict_get d k dflt = (case d k of None \<Rightarrow> dflt | Some v \<Rightarrow> v)"

text \<open>Python's truth value of a string or \<^verbatim>\<open>None\<close>.\<close>

fun truthy :: "pyval \<Rightarrow> bool" where
  "truthy PyNone = False"
| "truthy (PyStr s) = (s \<noteq> [])"

text \<open>Lines 48 to 56: the article built from one result.\<close>

definition make_article :: "pydict \<Rightarrow> string \<Rightarrow> pydict" where
  "make_article result query =
     [''title'' \<mapsto> dict_get result ''title'' (PyStr []),
      ''link'' \<mapsto> dict_get result ''url'' (PyStr []),
      ''snippet'' \<mapsto> dict_get result ''body'' (PyStr []),
      ''source'' \<mapsto> dict_get result ''source'' (PyStr []),
      ''date'' \<mapsto> dict_get result ''date'' (PyStr []),
      ''image'' \<mapsto> dict_get result ''image'' (PyStr []),
      ''query_category'' \<mapsto> PyStr query]"

definition news_call :: "string \<Rightarrow> int \<Rightarrow> string \<Rightarrow> news_args" where
  "news_call query n time_period =
     \<lparr>arg_keywords = query, arg_region = ''us-en'', arg_safesearch = ''moderate'',
      arg_timelimit = time_period, arg_max_results = n\<rparr>"

text \<open>The \<^verbatim>\<open>try\<close> block of \<^verbatim>\<open>search_news\<close> (lines 37 to 64): one provider call, the
  articles, one second of sleep. An exception of the provider leaves the block at once.\<close>

definition search_news_try ::
  "provider \<Rightarrow> string \<Rightarrow> int \<Rightarrow> string \<Rightarrow> world \<Rightarrow> (unit + pydict list) \<times> world" where
  "search_news_try P query n time_period w =
     (let w1 = w\<lparr>news_calls := news_calls w + 1\<rparr> in
      case P (news_calls w) (news_call query n time_period) of
        NewsRaises \<Rightarrow> (Inl (), w1)
      | NewsReturns results \<Rightarrow>
          (Inr (map (\<lambda>result. make_article result query) results),
           w1\<lparr>slept := slept w1 @ [1]\<rparr>))"

text \<open>\<^verbatim>\<open>search_news\<close>: the block with its handler, which returns the empty list.\<close>

definition search_news ::
  "provider \<Rightarrow> string \<Rightarrow> int \<Rightarrow> string \<Rightarrow> world \<Rightarrow> pydict list \<times> world" where
  "search_news P query n time_period w =
     (case search_news_try P query n time_period w of
        (Inl e, w') \<Rightarrow> ([], w')
      | (Inr articles, w') \<Rightarrow> (articles, w'))"

text \<open>Line 144: \<^verbatim>\<open>article["category"] = category\<close>.\<close>

definition set_category :: "string \<Rightarrow> pydict \<Rightarrow> pydict" where
  "set_category category article = article(''category'' \<mapsto> PyStr category)"

text \<open>Lines 140 to 145: the loop over the articles of one keyword, on the pair of
  \<^verbatim>\<open>category_articles\<close> and \<^verbatim>\<open>seen_links\<close>.\<close>

fun dedup_loop ::
  "string \<Rightarrow> pydict list \<Rightarrow> pydict list \<times> pyval set \<Rightarrow> pydict list \<times> pyval set" where
  "dedup_loop category [] (category_articles, seen_links) = (category_articles, seen_links)"
| "dedup_loop category (article # rest) (category_articles, seen_links) =
     (let link = dict_get article ''link'' (PyStr []) in
      if truthy link \<and> link \<notin> seen_links then
        dedup_loop category rest
          (category_articles @ [set_category category article],
           insert link seen_links)
      else dedup_loop category rest (category_articles, seen_links))"

text \<open>Lines 132 to 145: the loop over the keywords of one category.\<close>

fun keyword_loop ::
  "provider \<Rightarrow> int \<Rightarrow> string \<Rightarrow> string list \<Rightarrow> pydict list \<times> pyval set \<Rightarrow> world \<Rightarrow>
   (pydict list \<times> pyval set) \<times> world" where
  "keyword_loop P n category [] st w = (st, w)"
| "keyword_loop P n category (keyword # rest) st w =
     (let (articles, w1) = search_news P keyword n ''w'' w in
      keyword_loop P n category rest (dedup_loop category articles st) w1)"

text \<open>Lines 126 to 148: the loop over \<^verbatim>\<open>topics.items()\<close>, on \<^verbatim>\<open>all_results\<close>.\<close>

fun topics_loop ::
  "provider \<Rightarrow> int \<Rightarrow> (string \<times> string list) list \<Rightarrow> (string \<rightharpoonup> pydict list) \<Rightarrow> world \<Rightarrow>
   (string \<rightharpoonup> pydict list) \<times> world" where
  "topics_loop P n [] all_results w = (all_results, w)"
| "topics_loop P n ((category, kws) # rest) all_results w =
     (let ((category_articles, seen_links), w1) = keyword_loop P n category kws ([], {}) w in
      topics_loop P n rest (all_results(category \<mapsto> category_articles)) w1)"

text \<open>\<^verbatim>\<open>search_multiple_topics\<close>; \<open>topics\<close> lists the items of the dict in its order.\<close>

definition search_multiple_topics ::
  "provider \<Rightarrow> (string \<times> string list) list \<Rightarrow> int \<Rightarrow> world \<Rightarrow>
   (string \<rightharpoonup> pydict list) \<times> world" where
  "search_multiple_topics P topics results_per_query w =
     topics_loop P results_per_query topics Map.empty w"

subsection \<open>Notions of the specification\<close>

definition link_of :: "pydict \<Rightarrow> pyval" where
  "link_of article = dict_get article ''link'' (PyStr [])"

text \<open>First occurrence wins: an article is kept when its link is non-empty and no article
  before it has the same link.\<close>

fun first_by_link :: "pydict list \<Rightarrow> pydict list" where
  "first_by_link [] = []"
| "first_by_link (a # as) =
     (if truthy (link_of a)
      then a # first_by_link (filter (\<lambda>b. link_of b \<noteq> link_of a) as)
      else first_by_link as)"

text \<open>What the searches of the keywords \<open>kws\<close> return, one after the other, when the
  first of them is the provider's call number \<open>i\<close>: the results of each call in the
  provider's order, as \<^verbatim>\<open>search_news\<close> hands them on.\<close>

fun gathered :: "provider \<Rightarrow> int \<Rightarrow> string list \<Rightarrow> nat \<Rightarrow> pydict list" where
  "gathered P n [] i = []"
| "gathered P n (keyword # rest) i =
     fst (search_news P keyword n ''w'' \<lparr>posts = 0, news_calls = i, slept = []\<rparr>)
     @ gathered P n rest (Suc i)"

text \<open>The results of the successful keywords only: the keywords whose provider call
  returned, each with the articles of its results, in keyword order.\<close>

definition successes :: "provider \<Rightarrow> int \<Rightarrow> string list \<Rightarrow> nat \<Rightarrow> pydict list" where
  "successes P n kws i =
     concat (List.map_filter
       (\<lambda>(j, keyword).
          case P (i + j) (news_call keyword n ''w'') of
            NewsRaises \<Rightarrow> None
          | NewsReturns results \<Rightarrow> Some (map (\<lambda>result. make_article result keyword) results))
       (enumerate 0 kws))"

text \<open>The number of provider calls a run makes: one for each keyword of each category.\<close>

definition total_keywords :: "(string \<times> string list) list \<Rightarrow> nat" where
  "total_keywords topics = sum_list (map (\<lambda>(category, kws). length kws) topics)"

text \<open>Lines 49 to 54: the fields of an article that are read from the result, each with
  the key of the result it is read from.\<close>

definition result_fields :: "(string \<times> string) list" where
  "result_fields =
     [(''title'', ''title''), (''link'', ''url''), (''snippet'', ''body''),
      (''source'', ''source''), (''date'', ''date''), (''image'', ''image'')]"

subsection \<open>A concrete provider\<close>

text \<open>The scenario of the specification, extended: the query \<^verbatim>\<open>q1\<close> returns the links
  \<^verbatim>\<open>x\<close> and \<^verbatim>\<open>y\<close>, \<^verbatim>\<open>q2\<close> returns \<^verbatim>\<open>y\<close> and \<^verbatim>\<open>z\<close>, \<^verbatim>\<open>q3\<close> returns a result with an
  empty url, one without url and one with the url \<^verbatim>\<open>v\<close>; every other query raises.\<close>

definition scenario_provider :: provider where
  "scenario_provider i args =
     (if arg_keywords args = ''q1'' then
        NewsReturns [[''url'' \<mapsto> PyStr ''x'', ''title'' \<mapsto> PyStr ''x of q1''],
                     [''url'' \<mapsto> PyStr ''y'', ''title'' \<mapsto> PyStr ''y of q1'']]
      else if arg_keywords args = ''q2'' then
        NewsReturns [[''url'' \<mapsto> PyStr ''y'', ''title'' \<mapsto> PyStr ''y of q2''],
                     [''url'' \<mapsto> PyStr ''z'', ''title'' \<mapsto> PyStr ''z of q2'']]
      else if arg_keywords args = ''q3'' then
        NewsReturns [[''url'' \<mapsto> PyStr [], ''title'' \<mapsto> PyStr ''empty url''],
                     [''title'' \<mapsto> PyStr ''no url''],
                     [''url'' \<mapsto> PyStr ''v'', ''title'' \<mapsto> PyStr ''v of q3'']]
      else NewsRaises)"

definition world0 :: world where
  "world0 = \<lparr>posts = 0, news_calls = 0, slept = []\<rparr>"

section \<open>Properties of the completion client\<close>

subsection \<open>The retry loop\<close>

lemma generate_loop_rate_limited:
  "rate_limited B c p (posts w) (length as) \<Longrightarrow>
   generate_loop c B p (as @ bs) w =
   generate_loop c B p bs
     (w\<lparr>posts := posts w + length as, slept := slept w @ backoffs c as\<rparr>)"
proof (induction as arbitrary: w)
  case Nil
  then show ?case by (simp add: backoffs_def)
next
  case (Cons a as)
  from Cons.prems obtain b where b: "B (posts w) (headers c) p = Response 429 b"
    unfolding rate_limited_def by force
  let ?w = "w\<lparr>posts := posts w + 1, slept := slept w @ [baseDelay c * (int a + 1) * 2]\<rparr>"
  have "rate_limited B c p (posts ?w) (length as)"
    using Cons.prems unfolding rate_limited_def by fastforce
  from Cons.IH [OF this] show ?case
    using b by (simp add: raises_for_status_def backoffs_def)
qed

lemma attempts_split:
  assumes "k < m"
  shows "[0..<m] = [0..<k] @ k # [Suc k..<m]"
proof -
  have "[0..<k + (m - k)] = [0..<k] @ [k..<k + (m - k)]"
    by (rule upt_add_eq_append) simp
  moreover have "[k..<m] = k # [Suc k..<m]"
    using assms by (simp add: upt_conv_Cons)
  ultimately show ?thesis using assms by simp
qed

text \<open>After \<open>k\<close> rate-limited attempts the loop stands at attempt \<open>k\<close>.\<close>

lemma generate_after_rate_limits:
  assumes "k < maxRetries c" and "rate_limited B c (build_payload c r) (posts w) k"
  shows "generate c B r w =
     generate_loop c B (build_payload c r) (k # [Suc k..<maxRetries c])
       (w\<lparr>posts := posts w + k, slept := slept w @ backoffs c [0..<k]\<rparr>)"
proof -
  have "rate_limited B c (build_payload c r) (posts w) (length [0..<k])"
    using assms(2) by simp
  from generate_loop_rate_limited [OF this] show ?thesis
    unfolding generate_def by (simp add: attempts_split [OF assms(1)])
qed

lemma extract_content_ok:
  "extract_content b = Inr t \<Longrightarrow> has_content b"
  unfolding extract_content_def has_content_def
  by (auto split: body.splits sum.splits option.splits elim!: subscript_key.elims subscript_zero.elims)

lemma has_content_extract:
  "has_content b \<Longrightarrow> \<exists>t. extract_content b = Inr t"
  unfolding extract_content_def has_content_def by auto

lemma extract_content_exn:
  "extract_content b = Inl e \<Longrightarrow> e \<noteq> RequestException"
  unfolding extract_content_def
  by (auto split: body.splits sum.splits option.splits elim!: subscript_key.elims subscript_zero.elims)

lemma backoffs_attempt_numbers:
  "backoffs c [0..<n] = map (\<lambda>k. baseDelay c * int k * 2) [1..<Suc n]"
proof -
  have "[1..<Suc n] = map Suc [0..<n]" by (simp add: map_Suc_upt)
  then show ?thesis by (simp add: backoffs_def o_def add.commute)
qed

lemma backoffs_increasing:
  assumes "0 < baseDelay c"
  shows "sorted_wrt (<) (map (\<lambda>k. baseDelay c * int k * 2) [1..<Suc n])"
proof -
  have "sorted_wrt (<) [1..<Suc n]" by (rule sorted_wrt_upt)
  then have "sorted_wrt (\<lambda>x y. baseDelay c * int x * 2 < baseDelay c * int y * 2) [1..<Suc n]"
    by (rule sorted_wrt_mono_rel [rotated]) (use assms in simp)
  then show ?thesis by (simp only: sorted_wrt_map)
qed

text \<open>
  Claim C1. When the backend answers HTTP 429 to every post, \<^verbatim>\<open>generate\<close> posts exactly
  \<open>maxRetries\<close> times, sleeps \<open>baseDelay * k * 2\<close> after the attempt number \<open>k\<close>
  (counted from 1), these delays grow strictly with \<open>k\<close> for a positive \<open>baseDelay\<close>
  (the constructor sets 5), and the call ends with the rate-limit error of line 87,
  the failure kind RateLimitExhausted of the specification.
\<close>

theorem rate_limit_exhausted:
  assumes "\<forall>n. \<exists>b. B n (headers c) (build_payload c r) = Response 429 b"
    and "0 < baseDelay c"
  shows "generate c B r w =
           (Inl (RateLimitExceeded (maxRetries c)),
            w\<lparr>posts := posts w + maxRetries c,
              slept := slept w @ map (\<lambda>k. baseDelay c * int k * 2) [1..<Suc (maxRetries c)]\<rparr>)
         \<and> sorted_wrt (<) (map (\<lambda>k. baseDelay c * int k * 2) [1..<Suc (maxRetries c)])"
proof -
  have "rate_limited B c (build_payload c r) (posts w) (length [0..<maxRetries c])"
    using assms(1) by (simp add: rate_limited_def)
  from generate_loop_rate_limited [OF this, of "[]"]
  have "generate c B r w =
          (Inl (RateLimitExceeded (maxRetries c)),
           w\<lparr>posts := posts w + maxRetries c,
             slept := slept w @ backoffs c [0..<maxRetries c]\<rparr>)"
    by (simp add: generate_def)
  then show ?thesis
    using backoffs_increasing [OF assms(2)] by (simp add: backoffs_attempt_numbers)
qed

text \<open>The client as the constructor builds it: three posts, delays of 10, 20 and 30.\<close>

theorem rate_limit_exhausted_witness:
  "generate (init_client ''token'' ''gpt-4o-mini'') (\<lambda>n h p. Response 429 NotJson)
     \<lparr>prompt = ''Say OK'', systemPrompt = None, maxTokens = 10, temperature = 3 / 10\<rparr>
     \<lparr>posts = 0, news_calls = 0, slept = []\<rparr>
   = (Inl (RateLimitExceeded 3), \<lparr>posts = 3, news_calls = 0, slept = [10, 20, 30]\<rparr>)
   \<and> sorted_wrt (<) [10, 20, 30 :: int]"
  using rate_limit_exhausted [of "\<lambda>n h p. Response 429 NotJson" "init_client ''token'' ''gpt-4o-mini''"
      "\<lparr>prompt = ''Say OK'', systemPrompt = None, maxTokens = 10, temperature = 3 / 10\<rparr>"
      "\<lparr>posts = 0, news_calls = 0, slept = []\<rparr>"]
  by (simp add: init_client_def upt_conv_Cons)

text \<open>
  Claim C6. An HTTP 401 answer ends \<^verbatim>\<open>generate\<close> on the attempt that received it with the
  error of line 78 (InvalidCredentials), an HTTP 403 answer with the error of line 80
  (AccessDenied): no post and no sleep follows. The attempt is the first one for
  \<open>k = 0\<close>; for \<open>k > 0\<close> it comes after \<open>k\<close> rate-limited attempts.
\<close>

theorem auth_failure_not_retried:
  assumes "k < maxRetries c"
    and "rate_limited B c (build_payload c r) (posts w) k"
    and "B (posts w + k) (headers c) (build_payload c r) = Response status b"
  shows "(status = 401 \<longrightarrow>
            generate c B r w =
              (Inl InvalidToken,
               w\<lparr>posts := posts w + Suc k, slept := slept w @ backoffs c [0..<k]\<rparr>))
       \<and> (status = 403 \<longrightarrow>
            generate c B r w =
              (Inl AccessRequired,
               w\<lparr>posts := posts w + Suc k, slept := slept w @ backoffs c [0..<k]\<rparr>))"
  using assms(3) unfolding generate_after_rate_limits [OF assms(1,2)]
  by (simp add: raises_for_status_def)

text \<open>A 401 and a 403 on the first attempt: one post, no sleep.\<close>

theorem auth_failure_not_retried_witness:
  "generate (init_client ''token'' ''gpt-4o-mini'') (\<lambda>n h p. Response 401 NotJson)
     \<lparr>prompt = ''Say OK'', systemPrompt = None, maxTokens = 10, temperature = 3 / 10\<rparr>
     \<lparr>posts = 0, news_calls = 0, slept = []\<rparr>
   = (Inl InvalidToken, \<lparr>posts = 1, news_calls = 0, slept = []\<rparr>)
   \<and>
   generate (init_client ''token'' ''gpt-4o-mini'') (\<lambda>n h p. Response 403 NotJson)
     \<lparr>prompt = ''Say OK'', systemPrompt = None, maxTokens = 10, temperature = 3 / 10\<rparr>
     \<lparr>posts = 0, news_calls = 0, slept = []\<rparr>
   = (Inl AccessRequired, \<lparr>posts = 1, news_calls = 0, slept = []\<rparr>)"
  using auth_failure_not_retried [of 0 "init_client ''token'' ''gpt-4o-mini''"
      "\<lambda>n h p. Response 401 NotJson"
      "\<lparr>prompt = ''Say OK'', systemPrompt = None, maxTokens = 10, temperature = 3 / 10\<rparr>"
      "\<lparr>posts = 0, news_calls = 0, slept = []\<rparr>" 401 NotJson]
    auth_failure_not_retried [of 0 "init_client ''token'' ''gpt-4o-mini''"
      "\<lambda>n h p. Response 403 NotJson"
      "\<lparr>prompt = ''Say OK'', systemPrompt = None, maxTokens = 10, temperature = 3 / 10\<rparr>"
      "\<lparr>posts = 0, news_calls = 0, slept = []\<rparr>" 403 NotJson]
  by (simp add: init_client_def rate_limited_def backoffs_def)

text \<open>
  Claim C8. A 2xx answer whose body lacks the \<^verbatim>\<open>choices[0].message.content\<close> structure
  ends \<^verbatim>\<open>generate\<close> on that attempt: the exception of parsing or subscripting is raised
  again by line 85 (the failure kind MalformedResponse), and no post or sleep follows.
\<close>

theorem malformed_body_not_retried:
  assumes "k < maxRetries c"
    and "rate_limited B c (build_payload c r) (posts w) k"
    and "B (posts w + k) (headers c) (build_payload c r) = Response status b"
    and "200 \<le> status" and "status < 300"
    and "\<not> has_content b"
  shows "\<exists>e \<in> {JSONDecodeError, KeyError, IndexError, TypeError}.
           generate c B r w =
             (Inl (Reraised e),
              w\<lparr>posts := posts w + Suc k, slept := slept w @ backoffs c [0..<k]\<rparr>)"
proof (cases "extract_content b")
  case (Inl e)
  from extract_content_exn [OF this] have "e \<in> {JSONDecodeError, KeyError, IndexError, TypeError}"
    by (cases e) simp_all
  moreover have "generate c B r w =
             (Inl (Reraised e),
              w\<lparr>posts := posts w + Suc k, slept := slept w @ backoffs c [0..<k]\<rparr>)"
    using assms(3,4,5) Inl unfolding generate_after_rate_limits [OF assms(1,2)]
    by (simp add: raises_for_status_def)
  ultimately show ?thesis by blast
next
  case (Inr t)
  from extract_content_ok [OF this] assms(6) show ?thesis by simp
qed

text \<open>An empty \<^verbatim>\<open>choices\<close> array on the second attempt, after one rate-limited attempt.\<close>

theorem malformed_body_not_retried_witness:
  "generate (init_client ''token'' ''gpt-4o-mini'')
     (\<lambda>n h p. if n = 0 then Response 429 NotJson
                else Response 200 (Json (JObj [(''choices'', JArr [])])))
     \<lparr>prompt = ''Say OK'', systemPrompt = None, maxTokens = 10, temperature = 3 / 10\<rparr>
     \<lparr>posts = 0, news_calls = 0, slept = []\<rparr>
   = (Inl (Reraised IndexError), \<lparr>posts = 2, news_calls = 0, slept = [10]\<rparr>)"
  using malformed_body_not_retried [of 1 "init_client ''token'' ''gpt-4o-mini''"
      "\<lambda>n h p. if n = 0 then Response 429 NotJson
                else Response 200 (Json (JObj [(''choices'', JArr [])]))"
      "\<lparr>prompt = ''Say OK'', systemPrompt = None, maxTokens = 10, temperature = 3 / 10\<rparr>"
      "\<lparr>posts = 0, news_calls = 0, slept = []\<rparr>" 200 "Json (JObj [(''choices'', JArr [])])"]
  by (simp add: init_client_def rate_limited_def backoffs_def has_content_def generate_def
      upt_conv_Cons raises_for_status_def extract_content_def)

section \<open>Properties of the aggregator\<close>

subsection \<open>One search\<close>

lemma search_news_articles:
  "fst (search_news P q n t w) =
     (case P (news_calls w) (news_call q n t) of
        NewsRaises \<Rightarrow> []
      | NewsReturns results \<Rightarrow> map (\<lambda>result. make_article result q) results)"
  by (simp add: search_news_def search_news_try_def Let_def split: news_outcome.split)

lemma search_news_calls:
  "news_calls (snd (search_news P q n t w)) = Suc (news_calls w)"
  by (simp add: search_news_def search_news_try_def Let_def split: news_outcome.split)

lemma link_of_set_category: "link_of (set_category c a) = link_of a"
  by (simp add: link_of_def dict_get_def set_category_def)

subsection \<open>Deduplication\<close>

lemma dedup_loop_append:
  "dedup_loop c (xs @ ys) st = dedup_loop c ys (dedup_loop c xs st)"
  by (induction c xs st rule: dedup_loop.induct) (simp_all add: Let_def)

lemma filter_unseen:
  "filter (\<lambda>b. link_of b \<noteq> l) (filter (\<lambda>b. link_of b \<notin> seen) xs) =
   filter (\<lambda>b. link_of b \<notin> insert l seen) xs"
  by (induction xs) auto

lemma dedup_loop_first:
  "fst (dedup_loop c xs (acc, seen)) =
     acc @ map (set_category c)
             (first_by_link (filter (\<lambda>a. link_of a \<notin> seen) xs))"
proof (induction xs arbitrary: acc seen)
  case Nil
  then show ?case by simp
next
  case (Cons a xs)
  show ?case
  proof (cases "truthy (link_of a) \<and> link_of a \<notin> seen")
    case True
    then show ?thesis
      using Cons.IH [of "acc @ [set_category c a]" "insert (link_of a) seen"]
      by (simp add: link_of_def [symmetric] filter_unseen del: filter_filter)
  next
    case False
    then show ?thesis
      using Cons.IH [of acc seen] by (auto simp: link_of_def [symmetric] simp del: filter_filter)
  qed
qed

lemma first_by_link_subset: "set (first_by_link xs) \<subseteq> set xs"
  by (induction xs rule: first_by_link.induct) auto

lemma first_by_link_truthy: "a \<in> set (first_by_link xs) \<Longrightarrow> truthy (link_of a)"
  by (induction xs rule: first_by_link.induct) (auto split: if_splits)

lemma first_by_link_distinct: "distinct (map link_of (first_by_link xs))"
proof (induction xs rule: first_by_link.induct)
  case 1
  then show ?case by simp
next
  case (2 a as)
  have "link_of a \<notin> link_of ` set (first_by_link (filter (\<lambda>b. link_of b \<noteq> link_of a) as))"
    using first_by_link_subset [of "filter (\<lambda>b. link_of b \<noteq> link_of a) as"] by auto
  with 2 show ?case by simp
qed

subsection \<open>The keywords of a category\<close>

lemma keyword_loop_gathered:
  "fst (keyword_loop P n c kws st w) = dedup_loop c (gathered P n kws (news_calls w)) st"
proof (induction kws arbitrary: st w)
  case Nil
  then show ?case by (cases st) simp
next
  case (Cons k kws)
  have same: "fst (search_news P k n ''w'' \<lparr>posts = 0, news_calls = news_calls w, slept = []\<rparr>)
      = fst (search_news P k n ''w'' w)"
    by (simp add: search_news_articles)
  show ?case
    using Cons.IH [of "dedup_loop c (fst (search_news P k n ''w'' w)) st" "snd (search_news P k n ''w'' w)"]
    by (simp add: split_beta same dedup_loop_append search_news_calls)
qed

lemma keyword_loop_calls:
  "news_calls (snd (keyword_loop P n c kws st w)) = news_calls w + length kws"
  by (induction kws arbitrary: st w) (simp_all add: split_beta search_news_calls)

lemma category_articles:
  "fst (fst (keyword_loop P n c kws ([], {}) w)) =
     map (set_category c) (first_by_link (gathered P n kws (news_calls w)))"
  by (simp add: keyword_loop_gathered dedup_loop_first)

lemma gathered_successes_from:
  "concat (List.map_filter
       (\<lambda>(j, keyword).
          case P (i + j) (news_call keyword n ''w'') of
            NewsRaises \<Rightarrow> None
          | NewsReturns results \<Rightarrow> Some (map (\<lambda>result. make_article result keyword) results))
       (enumerate m kws)) = gathered P n kws (i + m)"
  by (induction kws arbitrary: m)
    (simp_all add: map_filter_simps search_news_articles split: news_outcome.split)

lemma gathered_successes: "gathered P n kws i = successes P n kws i"
  using gathered_successes_from [of P i n 0 kws] by (simp add: successes_def)

subsection \<open>The categories\<close>

lemma topics_loop_Cons:
  "topics_loop P n ((c, kws) # rest) m w =
     topics_loop P n rest (m(c \<mapsto> fst (fst (keyword_loop P n c kws ([], {}) w))))
       (snd (keyword_loop P n c kws ([], {}) w))"
proof -
  obtain acc seen w1 where "keyword_loop P n c kws ([], {}) w = ((acc, seen), w1)"
    by (metis surj_pair)
  then show ?thesis by simp
qed

lemma topics_loop_append:
  "topics_loop P n (xs @ ys) m w =
     topics_loop P n ys (fst (topics_loop P n xs m w)) (snd (topics_loop P n xs m w))"
proof (induction xs arbitrary: m w)
  case Nil
  then show ?case by simp
next
  case (Cons t xs)
  obtain c kws where t: "t = (c, kws)" by (cases t)
  show ?case
    unfolding t append_Cons topics_loop_Cons by (rule Cons.IH)
qed

lemma topics_loop_dom:
  "dom (fst (topics_loop P n ts m w)) = dom m \<union> fst ` set ts"
proof (induction ts arbitrary: m w)
  case Nil
  then show ?case by simp
next
  case (Cons t ts)
  obtain c kws where t: "t = (c, kws)" by (cases t)
  show ?case
    unfolding t topics_loop_Cons Cons.IH by simp
qed

lemma topics_loop_other:
  "c \<notin> fst ` set ts \<Longrightarrow> fst (topics_loop P n ts m w) c = m c"
proof (induction ts arbitrary: m w)
  case Nil
  then show ?case by simp
next
  case (Cons t ts)
  obtain c' kws where t: "t = (c', kws)" by (cases t)
  from Cons.prems have "c \<noteq> c'" and "c \<notin> fst ` set ts" by (auto simp: t)
  then show ?case
    unfolding t topics_loop_Cons by (simp add: Cons.IH)
qed

lemma topics_loop_calls:
  "news_calls (snd (topics_loop P n ts m w)) = news_calls w + total_keywords ts"
proof (induction ts arbitrary: m w)
  case Nil
  then show ?case by (simp add: total_keywords_def)
next
  case (Cons t ts)
  obtain c kws where t: "t = (c, kws)" by (cases t)
  show ?case
    unfolding t topics_loop_Cons Cons.IH by (simp add: total_keywords_def keyword_loop_calls)
qed

lemma topics_loop_lookup:
  assumes "c \<notin> fst ` set post"
  shows "fst (topics_loop P n (pre @ (c, kws) # post) m w) c =
     Some (fst (fst (keyword_loop P n c kws ([], {}) (snd (topics_loop P n pre m w)))))"
  using assms
  by (simp add: topics_loop_append topics_loop_Cons topics_loop_other del: topics_loop.simps(2))

lemma topics_loop_origin:
  "fst (topics_loop P n ts m w) c = Some as \<Longrightarrow>
   m c = Some as \<or> (\<exists>kws w'. (c, kws) \<in> set ts \<and> as = fst (fst (keyword_loop P n c kws ([], {}) w')))"
proof (induction ts arbitrary: m w)
  case Nil
  then show ?case by simp
next
  case (Cons t ts)
  obtain c' kws where t: "t = (c', kws)" by (cases t)
  let ?r = "keyword_loop P n c' kws ([], {}) w"
  from Cons.prems have "fst (topics_loop P n ts (m(c' \<mapsto> fst (fst ?r))) (snd ?r)) c = Some as"
    by (simp add: t topics_loop_Cons del: topics_loop.simps(2))
  from Cons.IH [OF this] show ?case
    by (auto simp: t split: if_splits)
qed

lemma result_origin:
  "fst (search_multiple_topics P topics n w) c = Some as \<Longrightarrow>
   \<exists>kws i. (c, kws) \<in> set topics \<and>
     as = map (set_category c) (first_by_link (gathered P n kws i))"
  unfolding search_multiple_topics_def
  by (drule topics_loop_origin) (auto simp: category_articles)

lemma gathered_nothing:
  "(\<And>j. j < length kws \<Longrightarrow>
      P (i + j) (news_call (kws ! j) n ''w'') \<in> {NewsRaises, NewsReturns []}) \<Longrightarrow>
   gathered P n kws i = []"
proof (induction kws arbitrary: i)
  case Nil
  then show ?case by simp
next
  case (Cons k kws)
  have "P (i + 0) (news_call ((k # kws) ! 0) n ''w'') \<in> {NewsRaises, NewsReturns []}"
    by (rule Cons.prems) simp
  then have head: "fst (search_news P k n ''w'' \<lparr>posts = 0, news_calls = i, slept = []\<rparr>) = []"
    by (auto simp: search_news_articles)
  have "gathered P n kws (Suc i) = []"
  proof (rule Cons.IH)
    fix j assume "j < length kws"
    then have "P (i + Suc j) (news_call ((k # kws) ! Suc j) n ''w'') \<in> {NewsRaises, NewsReturns []}"
      by (intro Cons.prems) simp
    then show "P (Suc i + j) (news_call (kws ! j) n ''w'') \<in> {NewsRaises, NewsReturns []}"
      by simp
  qed
  with head show ?case by simp
qed

lemma category_result:
  assumes "c \<notin> fst ` set post"
  shows "fst (search_multiple_topics P (pre @ (c, kws) # post) n w) c =
     Some (map (set_category c)
       (first_by_link (gathered P n kws (news_calls w + total_keywords pre))))"
  unfolding search_multiple_topics_def
  by (simp only: topics_loop_lookup [OF assms] category_articles topics_loop_calls)

lemma gathered_has_link:
  "a \<in> set (gathered P n kws i) \<Longrightarrow> a ''link'' \<noteq> None"
  by (induction kws arbitrary: i)
    (auto simp: search_news_articles make_article_def split: news_outcome.splits)

text \<open>The equations that evaluate a run on a concrete provider.\<close>

lemmas run_defs = search_multiple_topics_def search_news_def search_news_try_def news_call_def
  make_article_def dict_get_def set_category_def link_of_def Let_def scenario_provider_def
  world0_def total_keywords_def

subsection \<open>The claims on the aggregator\<close>

text \<open>
  Claim C2. The keys of the mapping \<^verbatim>\<open>search_multiple_topics\<close> returns are exactly the
  categories of the topics. A category whose keyword searches all raise or return no
  result is bound to the empty list: the item \<open>(c, kws)\<close> stands after the items
  \<open>pre\<close>, so its keyword number \<open>j\<close> is the provider's call number
  \<open>news_calls w + total_keywords pre + j\<close>; a dict holds a key once, so \<open>c\<close> is not
  among the items after it.
\<close>

theorem result_keys:
  "dom (fst (search_multiple_topics P topics n w)) = fst ` set topics
   \<and> (\<forall>pre c kws post.
        topics = pre @ (c, kws) # post \<and> c \<notin> fst ` set post \<and>
        (\<forall>j < length kws.
           P (news_calls w + total_keywords pre + j) (news_call (kws ! j) n ''w'')
             \<in> {NewsRaises, NewsReturns []})
        \<longrightarrow> fst (search_multiple_topics P topics n w) c = Some [])"
proof (intro conjI allI impI)
  show "dom (fst (search_multiple_topics P topics n w)) = fst ` set topics"
    by (simp add: search_multiple_topics_def topics_loop_dom)
next
  fix pre c kws post
  assume a: "topics = pre @ (c, kws) # post \<and> c \<notin> fst ` set post \<and>
        (\<forall>j < length kws.
           P (news_calls w + total_keywords pre + j) (news_call (kws ! j) n ''w'')
             \<in> {NewsRaises, NewsReturns []})"
  then have "gathered P n kws (news_calls w + total_keywords pre) = []"
    by (intro gathered_nothing) simp
  with a show "fst (search_multiple_topics P topics n w) c = Some []"
    by (simp add: category_result)
qed

text \<open>A run with a category whose only keyword search raises.\<close>

theorem result_keys_witness:
  "dom (fst (search_multiple_topics scenario_provider
          [(''catA'', [''q1'']), (''catB'', [''down''])] 8 world0)) = {''catA'', ''catB''}
   \<and> fst (search_multiple_topics scenario_provider
          [(''catA'', [''q1'']), (''catB'', [''down''])] 8 world0) ''catB'' = Some []"
proof -
  note r = result_keys [of scenario_provider "[(''catA'', [''q1'']), (''catB'', [''down''])]" 8 world0]
  have hyp: "[(''catA'', [''q1'']), (''catB'', [''down''])]
        = [(''catA'', [''q1''])] @ (''catB'', [''down'']) # []
      \<and> ''catB'' \<notin> fst ` set ([] :: (string \<times> string list) list)
      \<and> (\<forall>j < length [''down''].
           scenario_provider (news_calls world0 + total_keywords [(''catA'', [''q1''])] + j)
             (news_call ([''down''] ! j) 8 ''w'') \<in> {NewsRaises, NewsReturns []})"
    by (simp add: scenario_provider_def news_call_def)
  from r [THEN conjunct1] have "dom (fst (search_multiple_topics scenario_provider
          [(''catA'', [''q1'']), (''catB'', [''down''])] 8 world0)) = {''catA'', ''catB''}"
    by simp
  moreover note r [THEN conjunct2, rule_format, OF hyp]
  ultimately show ?thesis by (rule conjI)
qed

text \<open>
  Claim C3. Within the list of one category no two articles have the same link.
\<close>

theorem no_shared_link:
  assumes "fst (search_multiple_topics P topics n w) c = Some as"
  shows "distinct (map link_of as)"
proof -
  from result_origin [OF assms] obtain kws i where
    "as = map (set_category c) (first_by_link (gathered P n kws i))" by blast
  then show ?thesis
    by (simp add: o_def link_of_set_category first_by_link_distinct)
qed

text \<open>The link \<^verbatim>\<open>y\<close> is returned for both keywords and kept once.\<close>

theorem no_shared_link_witness:
  "\<exists>as. fst (search_multiple_topics scenario_provider [(''catA'', [''q2'', ''q1''])] 8 world0)
           ''catA'' = Some as
      \<and> map link_of as = [PyStr ''y'', PyStr ''z'', PyStr ''x'']
      \<and> distinct (map link_of as)"
  using no_shared_link [of scenario_provider "[(''catA'', [''q2'', ''q1''])]" 8 world0 "''catA''"
      "the (fst (search_multiple_topics scenario_provider [(''catA'', [''q2'', ''q1''])] 8 world0)
           ''catA'')"]
  by (simp add: run_defs)

text \<open>
  Claim C4. The list of a category holds, of the articles its keyword searches return
  (in keyword order, then in the provider's order), the first one of each non-empty
  link; later articles with a link already seen are dropped. A retained article is the
  one \<^verbatim>\<open>search_news\<close> built, with the key \<^verbatim>\<open>category\<close> added and every other field as
  it was.
\<close>

theorem first_occurrence_kept:
  assumes "topics = pre @ (c, kws) # post" and "c \<notin> fst ` set post"
  shows "fst (search_multiple_topics P topics n w) c =
           Some (map (set_category c)
             (first_by_link (gathered P n kws (news_calls w + total_keywords pre))))
         \<and> (\<forall>a k. k \<noteq> ''category'' \<longrightarrow> set_category c a k = a k)"
  using assms by (simp add: category_result set_category_def)

text \<open>The scenario of the specification: the links \<^verbatim>\<open>x\<close>, \<^verbatim>\<open>y\<close>, \<^verbatim>\<open>z\<close> in that order, and the
  article kept for \<^verbatim>\<open>y\<close> is the one of \<^verbatim>\<open>q1\<close>.\<close>

theorem first_occurrence_kept_witness:
  "\<exists>as. fst (search_multiple_topics scenario_provider [(''catA'', [''q1'', ''q2''])] 8 world0)
           ''catA'' = Some as
      \<and> map link_of as = [PyStr ''x'', PyStr ''y'', PyStr ''z'']
      \<and> map (\<lambda>a. a ''title'') as =
           [Some (PyStr ''x of q1''), Some (PyStr ''y of q1''), Some (PyStr ''z of q2'')]
      \<and> map (\<lambda>a. a ''query_category'') as =
           [Some (PyStr ''q1''), Some (PyStr ''q1''), Some (PyStr ''q2'')]"
  using first_occurrence_kept [of "[(''catA'', [''q1'', ''q2''])]" "[]" "''catA''" "[''q1'', ''q2'']" "[]"
      scenario_provider 8 world0]
  by (simp add: run_defs)

text \<open>
  Claim C5. When the provider raises for the keyword number \<open>j\<close> of a category,
  \<^verbatim>\<open>search_news\<close> returns the empty list for it, the list of the category is the
  first-occurrence deduplication of the results of the keywords that succeeded, in
  order, every category is still bound in the result, and the run still makes one
  provider call for each keyword of each category.
\<close>

theorem failed_keyword_isolated:
  assumes "topics = pre @ (c, kws) # post" and "c \<notin> fst ` set post"
    and "j < length kws"
    and "P (news_calls w + total_keywords pre + j) (news_call (kws ! j) n ''w'') = NewsRaises"
  shows "(\<forall>w' :: world. news_calls w' = news_calls w + total_keywords pre + j \<longrightarrow>
            fst (search_news P (kws ! j) n ''w'' w') = [])
       \<and> fst (search_multiple_topics P topics n w) c =
           Some (map (set_category c)
             (first_by_link (successes P n kws (news_calls w + total_keywords pre))))
       \<and> dom (fst (search_multiple_topics P topics n w)) = fst ` set topics
       \<and> news_calls (snd (search_multiple_topics P topics n w)) =
           news_calls w + total_keywords topics"
proof (intro conjI allI impI)
  fix w' :: world assume "news_calls w' = news_calls w + total_keywords pre + j"
  with assms(4) show "fst (search_news P (kws ! j) n ''w'' w') = []"
    by (simp add: search_news_articles)
next
  show "fst (search_multiple_topics P topics n w) c =
           Some (map (set_category c)
             (first_by_link (successes P n kws (news_calls w + total_keywords pre))))"
    using assms(1,2) by (simp add: category_result gathered_successes)
next
  show "dom (fst (search_multiple_topics P topics n w)) = fst ` set topics"
    by (simp add: search_multiple_topics_def topics_loop_dom)
next
  show "news_calls (snd (search_multiple_topics P topics n w)) =
           news_calls w + total_keywords topics"
    by (simp add: search_multiple_topics_def topics_loop_calls)
qed

text \<open>The second of three keywords raises: the other two still contribute.\<close>

theorem failed_keyword_isolated_witness:
  "scenario_provider 1 (news_call ''down'' 8 ''w'') = NewsRaises
   \<and> (\<exists>as. fst (search_multiple_topics scenario_provider
                  [(''catA'', [''q1'', ''down'', ''q2''])] 8 world0) ''catA'' = Some as
          \<and> map link_of as = [PyStr ''x'', PyStr ''y'', PyStr ''z''])
   \<and> dom (fst (search_multiple_topics scenario_provider
                  [(''catA'', [''q1'', ''down'', ''q2''])] 8 world0)) = {''catA''}
   \<and> news_calls (snd (search_multiple_topics scenario_provider
                  [(''catA'', [''q1'', ''down'', ''q2''])] 8 world0)) = 3"
  using failed_keyword_isolated [of "[(''catA'', [''q1'', ''down'', ''q2''])]" "[]" "''catA''"
      "[''q1'', ''down'', ''q2'']" "[]" 1 scenario_provider world0 8]
  by (simp add: run_defs successes_def map_filter_simps enumerate_simps)

text \<open>
  Claim C7. Every article in the output has a link, and the link is a non-empty string:
  an article whose link is empty or absent is never retained.
\<close>

theorem empty_link_dropped:
  assumes "fst (search_multiple_topics P topics n w) c = Some as" and "a \<in> set as"
  shows "\<exists>l. a ''link'' = Some (PyStr l) \<and> l \<noteq> []"
proof -
  from result_origin [OF assms(1)] obtain kws i where
    as: "as = map (set_category c) (first_by_link (gathered P n kws i))" by blast
  with assms(2) obtain b where b: "b \<in> set (first_by_link (gathered P n kws i))"
    and a: "a = set_category c b" by auto
  from b have "truthy (link_of b)" by (rule first_by_link_truthy)
  moreover from b have "b ''link'' \<noteq> None"
    using first_by_link_subset gathered_has_link by blast
  ultimately obtain l where "b ''link'' = Some (PyStr l)" and "l \<noteq> []"
    by (cases "link_of b") (auto simp: link_of_def dict_get_def)
  then show ?thesis by (simp add: a set_category_def)
qed

text \<open>Of the three results of \<^verbatim>\<open>q3\<close> only the one with a url is kept.\<close>

theorem empty_link_dropped_witness:
  "\<exists>as. fst (search_multiple_topics scenario_provider [(''catC'', [''q3''])] 8 world0)
           ''catC'' = Some as
      \<and> map (\<lambda>a. a ''link'') as = [Some (PyStr ''v'')]"
  using empty_link_dropped [of scenario_provider "[(''catC'', [''q3''])]" 8 world0 "''catC''"
      "the (fst (search_multiple_topics scenario_provider [(''catC'', [''q3''])] 8 world0) ''catC'')"
      "hd (the (fst (search_multiple_topics scenario_provider [(''catC'', [''q3''])] 8 world0)
           ''catC''))"]
  by (simp add: run_defs)

text \<open>
  Claim C9. Every article in the list of a category has that category in its
  \<^verbatim>\<open>category\<close> field.
\<close>

theorem category_field_set:
  assumes "fst (search_multiple_topics P topics n w) c = Some as" and "a \<in> set as"
  shows "a ''category'' = Some (PyStr c)"
proof -
  from result_origin [OF assms(1)] obtain kws i where
    "as = map (set_category c) (first_by_link (gathered P n kws i))" by blast
  with assms(2) show ?thesis by (auto simp: set_category_def)
qed

text \<open>Two categories, each article tagged with its own.\<close>

theorem category_field_set_witness:
  "\<exists>as bs. fst (search_multiple_topics scenario_provider
                 [(''catA'', [''q1'']), (''catC'', [''q3''])] 8 world0) ''catA'' = Some as
      \<and> fst (search_multiple_topics scenario_provider
                 [(''catA'', [''q1'']), (''catC'', [''q3''])] 8 world0) ''catC'' = Some bs
      \<and> map (\<lambda>a. a ''category'') as = [Some (PyStr ''catA''), Some (PyStr ''catA'')]
      \<and> map (\<lambda>a. a ''category'') bs = [Some (PyStr ''catC'')]"
  using category_field_set [of scenario_provider "[(''catA'', [''q1'']), (''catC'', [''q3''])]" 8
      world0 "''catC''"
      "the (fst (search_multiple_topics scenario_provider
                 [(''catA'', [''q1'']), (''catC'', [''q3''])] 8 world0) ''catC'')"
      "hd (the (fst (search_multiple_topics scenario_provider
                 [(''catA'', [''q1'']), (''catC'', [''q3''])] 8 world0) ''catC''))"]
  by (simp add: run_defs)

lemma make_article_dom:
  "dom (make_article r q) =
     {''query_category'', ''image'', ''date'', ''source'', ''snippet'', ''link'', ''title''}"
  by (simp add: make_article_def)

lemma make_article_field:
  "(field, key) \<in> set result_fields \<Longrightarrow>
   make_article r q field = Some (case r key of None \<Rightarrow> PyStr [] | Some v \<Rightarrow> v)"
  by (auto simp: result_fields_def make_article_def dict_get_def)

text \<open>
  Claim C10. \<^verbatim>\<open>search_news\<close> always returns a list: an exception inside its \<^verbatim>\<open>try\<close>
  block is turned into the empty list by the handler, so a raising provider gives
  \<^verbatim>\<open>[]\<close>. Every article it returns has exactly the seven keys, and a field whose key
  the provider's result lacks holds the empty string.
\<close>

theorem search_news_total:
  "(\<forall>e w'. search_news_try P q n t w = (Inl e, w') \<longrightarrow> search_news P q n t w = ([], w'))
   \<and> (P (news_calls w) (news_call q n t) = NewsRaises \<longrightarrow> fst (search_news P q n t w) = [])
   \<and> (\<forall>results. P (news_calls w) (news_call q n t) = NewsReturns results \<longrightarrow>
        fst (search_news P q n t w) = map (\<lambda>result. make_article result q) results)
   \<and> (\<forall>a \<in> set (fst (search_news P q n t w)).
        dom a = {''query_category'', ''image'', ''date'', ''source'', ''snippet'', ''link'', ''title''})
   \<and> (\<forall>result. \<forall>(field, key) \<in> set result_fields.
        result key = None \<longrightarrow> make_article result q field = Some (PyStr []))"
proof (intro conjI)
  show "\<forall>e w'. search_news_try P q n t w = (Inl e, w') \<longrightarrow> search_news P q n t w = ([], w')"
    by (simp add: search_news_def)
  show "P (news_calls w) (news_call q n t) = NewsRaises \<longrightarrow> fst (search_news P q n t w) = []"
    by (simp add: search_news_articles)
  show "\<forall>results. P (news_calls w) (news_call q n t) = NewsReturns results \<longrightarrow>
        fst (search_news P q n t w) = map (\<lambda>result. make_article result q) results"
    by (simp add: search_news_articles)
  show "\<forall>a \<in> set (fst (search_news P q n t w)).
        dom a = {''query_category'', ''image'', ''date'', ''source'', ''snippet'', ''link'', ''title''}"
  proof (cases "P (news_calls w) (news_call q n t)")
    case NewsRaises
    then show ?thesis by (simp add: search_news_articles)
  next
    case (NewsReturns results)
    then show ?thesis by (simp only: search_news_articles news_outcome.case set_map ball_simps make_article_dom) simp
  qed
  show "\<forall>result. \<forall>(field, key) \<in> set result_fields.
        result key = None \<longrightarrow> make_article result q field = Some (PyStr [])"
  proof (intro allI ballI)
    fix result :: pydict and fk assume "fk \<in> set result_fields"
    then show "case fk of (field, key) \<Rightarrow>
        result key = None \<longrightarrow> make_article result q field = Some (PyStr [])"
      using make_article_field [of "fst fk" "snd fk" result q] by (simp add: split_beta)
  qed
qed

text \<open>A raising query, and a query whose second result has only a title.\<close>

theorem search_news_total_witness:
  "search_news scenario_provider ''down'' 8 ''w'' world0
     = ([], \<lparr>posts = 0, news_calls = 1, slept = []\<rparr>)
   \<and> (\<exists>a b c. search_news scenario_provider ''q3'' 8 ''w'' world0
                 = ([a, b, c], \<lparr>posts = 0, news_calls = 1, slept = [1]\<rparr>)
        \<and> b ''link'' = Some (PyStr []) \<and> b ''date'' = Some (PyStr [])
        \<and> b ''title'' = Some (PyStr ''no url'') \<and> b ''query_category'' = Some (PyStr ''q3'')
        \<and> dom b = {''query_category'', ''image'', ''date'', ''source'', ''snippet'', ''link'', ''title''})"
proof -
  note down = search_news_total [of scenario_provider "''down''" 8 "''w''" world0]
  note q3 = search_news_total [of scenario_provider "''q3''" 8 "''w''" world0]
  have "scenario_provider (news_calls world0) (news_call ''down'' 8 ''w'') = NewsRaises"
    by (simp add: scenario_provider_def news_call_def)
  with down [THEN conjunct2, THEN conjunct1]
  have "fst (search_news scenario_provider ''down'' 8 ''w'' world0) = []" by (rule mp)
  moreover have "snd (search_news scenario_provider ''down'' 8 ''w'' world0)
      = \<lparr>posts = 0, news_calls = 1, slept = []\<rparr>"
    by (simp add: run_defs)
  ultimately have first: "search_news scenario_provider ''down'' 8 ''w'' world0
     = ([], \<lparr>posts = 0, news_calls = 1, slept = []\<rparr>)"
    by (simp add: prod_eq_iff)
  have run: "search_news scenario_provider ''q3'' 8 ''w'' world0
      = ([make_article [''url'' \<mapsto> PyStr [], ''title'' \<mapsto> PyStr ''empty url''] ''q3'',
          make_article [''title'' \<mapsto> PyStr ''no url''] ''q3'',
          make_article [''url'' \<mapsto> PyStr ''v'', ''title'' \<mapsto> PyStr ''v of q3''] ''q3''],
         \<lparr>posts = 0, news_calls = 1, slept = [1]\<rparr>)"
    by (simp add: search_news_def search_news_try_def news_call_def scenario_provider_def world0_def)
  note q3 [THEN conjunct2, THEN conjunct2, THEN conjunct2, THEN conjunct1]
  then have domb: "dom (make_article [''title'' \<mapsto> PyStr ''no url''] ''q3'')
      = {''query_category'', ''image'', ''date'', ''source'', ''snippet'', ''link'', ''title''}"
    unfolding run by simp
  have fields: "make_article [''title'' \<mapsto> PyStr ''no url''] ''q3'' ''link'' = Some (PyStr [])"
    "make_article [''title'' \<mapsto> PyStr ''no url''] ''q3'' ''date'' = Some (PyStr [])"
    "make_article [''title'' \<mapsto> PyStr ''no url''] ''q3'' ''title'' = Some (PyStr ''no url'')"
    "make_article [''title'' \<mapsto> PyStr ''no url''] ''q3'' ''query_category'' = Some (PyStr ''q3'')"
    by (simp_all add: make_article_def dict_get_def)
  show ?thesis
    by (rule conjI [OF first]) (intro exI conjI, rule run, (rule fields domb)+)
qed

end
